theory Spec2Isabelle
  imports Complex_Main "HOL-Library.Word" "HOL-Library.AList"
begin

section \<open>Band classifier\<close>

text \<open>
  Go's \<open>float64\<close>. A finite value is the rational number it denotes (every finite
  double is one); the three special values are kept apart because comparisons treat
  them specially. Only comparison is used on these values by the code modelled here.
\<close>

datatype float64 = Finite rat | PosInf | NegInf | NaN

text \<open>The Go comparison \<open>a >= b\<close> on \<open>float64\<close>: false whenever an operand is NaN.\<close>

fun ge64 :: "float64 \<Rightarrow> float64 \<Rightarrow> bool" where
  "ge64 NaN _ = False"
| "ge64 _ NaN = False"
| "ge64 PosInf _ = True"
| "ge64 _ NegInf = True"
| "ge64 NegInf _ = False"
| "ge64 _ PosInf = False"
| "ge64 (Finite a) (Finite b) = (b \<le> a)"

record bandEdge =
  minFreq :: float64
  name :: string

definition mkEdge :: "rat \<Rightarrow> string \<Rightarrow> bandEdge" where
  "mkEdge f n = \<lparr>minFreq = Finite f, name = n\<rparr>"

definition bandEdges :: "bandEdge list" where
  "bandEdges =
    [mkEdge 0 ''LFMF'',
     mkEdge 1800 ''160m'',
     mkEdge 3500 ''80m'',
     mkEdge 5000 ''60m'',
     mkEdge 7000 ''40m'',
     mkEdge 10000 ''30m'',
     mkEdge 14000 ''20m'',
     mkEdge 18000 ''17m'',
     mkEdge 21000 ''15m'',
     mkEdge 24890 ''12m'',
     mkEdge 26000 ''11m'',
     mkEdge 28000 ''10m'',
     mkEdge 50000 ''6m'',
     mkEdge 144000 ''2m'',
     mkEdge 220000 ''125cm'',
     mkEdge 420000 ''70cm'',
     mkEdge 900000 ''900M'',
     mkEdge 1240000 ''1240M'',
     mkEdge 2300000 ''microwave'']"

text \<open>
  The loop of \<open>getBand\<close>:
  \<^verbatim>\<open>for i < len(bandEdges)-1 && freq >= bandEdges[i+1].minFreq { i++ }\<close>
  over an arbitrary table, returning the final index. The bound is written
  \<open>i + 1 < length edges\<close>, which is \<open>i < len - 1\<close> on Go's signed \<open>int\<close>.
\<close>

function getBand_loop :: "bandEdge list \<Rightarrow> float64 \<Rightarrow> nat \<Rightarrow> nat" where
  "getBand_loop edges freq i =
     (if i + 1 < length edges \<and> ge64 freq (minFreq (edges ! (i + 1)))
      then getBand_loop edges freq (i + 1) else i)"
  by pat_completeness auto
termination
  by (relation "measure (\<lambda>(edges, freq, i). length edges - i)") auto

declare getBand_loop.simps [simp del]

definition getBand :: "float64 \<Rightarrow> string" where
  "getBand freq = name (bandEdges ! getBand_loop bandEdges freq 0)"

text \<open>The thresholds of \<open>bandEdges\<close>, in the order of the table.\<close>

definition bandThresholds :: "rat list" where
  "bandThresholds = [0, 1800, 3500, 5000, 7000, 10000, 14000, 18000, 21000,
   24890, 26000, 28000, 50000, 144000, 220000, 420000, 900000, 1240000, 2300000]"

section \<open>Regular expressions of the reader loop\<close>

text \<open>
  The two patterns compiled in \<open>main\<close> use literals, a case-folded literal, repeated
  character classes (greedy or lazy), the word boundary and concatenation. A pattern is
  a list of items, each capturing or not. Matching is by backtracking in priority
  order, which yields the leftmost-first match Go's \<open>regexp\<close> package reports. Text is
  matched byte by byte; every class and literal used here is ASCII, where that agrees
  with matching by code point.
\<close>

datatype greed = Greedy | Lazy

datatype re =
    Lit string
  | LitFold string
  | Rep "char \<Rightarrow> bool" nat "nat option" greed
  | WordBoundary
  | Cat re re

definition is_space :: "char \<Rightarrow> bool" where
  \<comment> \<open>\<open>\s\<close> is \<open>[\t\n\f\r ]\<close>\<close>
  "is_space c = (c \<in> {CHR 0x09, CHR 0x0A, CHR 0x0C, CHR 0x0D, CHR '' ''})"

definition non_space :: "char \<Rightarrow> bool" where
  "non_space c = (\<not> is_space c)"

definition is_digit :: "char \<Rightarrow> bool" where
  "is_digit c = (48 \<le> (of_char c :: nat) \<and> (of_char c :: nat) \<le> 57)"

definition digit_or_dot :: "char \<Rightarrow> bool" where
  "digit_or_dot c = (is_digit c \<or> c = CHR ''.'')"

definition any_char :: "char \<Rightarrow> bool" where
  \<comment> \<open>\<open>.\<close> without the \<open>s\<close> flag: anything but a newline\<close>
  "any_char c = (c \<noteq> CHR 0x0A)"

definition is_colon :: "char \<Rightarrow> bool" where
  "is_colon c = (c = CHR '':'')"

definition is_upper :: "char \<Rightarrow> bool" where
  "is_upper c = (65 \<le> (of_char c :: nat) \<and> (of_char c :: nat) \<le> 90)"

definition is_lower :: "char \<Rightarrow> bool" where
  "is_lower c = (97 \<le> (of_char c :: nat) \<and> (of_char c :: nat) \<le> 122)"

definition is_word :: "char \<Rightarrow> bool" where
  \<comment> \<open>\<open>\w\<close> is \<open>[0-9A-Za-z_]\<close>\<close>
  "is_word c = (is_digit c \<or> is_upper c \<or> is_lower c \<or> c = CHR ''_'')"

definition to_upper :: "char \<Rightarrow> char" where
  "to_upper c = (if is_lower c then char_of ((of_char c :: nat) - 32) else c)"

text \<open>Whether the position between \<open>prev\<close> and the rest \<open>s\<close> has a word character on a side;
  the start and the end of the text count as non-word.\<close>

definition word_before :: "char option \<Rightarrow> bool" where
  "word_before prev = (case prev of None \<Rightarrow> False | Some c \<Rightarrow> is_word c)"

definition word_after :: "string \<Rightarrow> bool" where
  "word_after s = (case s of [] \<Rightarrow> False | c # _ \<Rightarrow> is_word c)"

definition last_of :: "char option \<Rightarrow> string \<Rightarrow> char option" where
  "last_of prev m = (if m = [] then prev else Some (last m))"

text \<open>
  \<open>splits r prev s\<close>: every way \<open>r\<close> can match a prefix of \<open>s\<close>, as (matched, rest), the
  preferred way first; \<open>prev\<close> is the character before \<open>s\<close> in the text.
\<close>

fun splits :: "re \<Rightarrow> char option \<Rightarrow> string \<Rightarrow> (string \<times> string) list" where
  "splits (Lit l) prev s =
     (if take (length l) s = l then [(l, drop (length l) s)] else [])"
| "splits (LitFold l) prev s =
     (if map to_upper (take (length l) s) = map to_upper l
      then [(take (length l) s, drop (length l) s)] else [])"
| "splits (Rep p lo hi g) prev s =
     (let n = length (takeWhile p s);
          top = (case hi of None \<Rightarrow> n | Some h \<Rightarrow> min h n);
          ks = [lo ..< Suc top]
      in map (\<lambda>k. (take k s, drop k s)) (case g of Greedy \<Rightarrow> rev ks | Lazy \<Rightarrow> ks))"
| "splits WordBoundary prev s =
     (if word_before prev \<noteq> word_after s then [([], s)] else [])"
| "splits (Cat a b) prev s =
     concat (map (\<lambda>(m1, r1). map (\<lambda>(m2, r2). (m1 @ m2, r2)) (splits b (last_of prev m1) r1))
                 (splits a prev s))"

text \<open>
  \<open>match_at items prev s\<close>: the first way the items match a prefix of \<open>s\<close> in sequence,
  as the texts of the capturing items and the unmatched rest.
\<close>

fun match_at :: "(bool \<times> re) list \<Rightarrow> char option \<Rightarrow> string \<Rightarrow> (string list \<times> string) option"
and try_splits :: "bool \<Rightarrow> (bool \<times> re) list \<Rightarrow> char option \<Rightarrow> (string \<times> string) list
                    \<Rightarrow> (string list \<times> string) option" where
  "match_at [] prev s = Some ([], s)"
| "match_at ((cap, r) # items) prev s = try_splits cap items prev (splits r prev s)"
| "try_splits cap items prev [] = None"
| "try_splits cap items prev ((m, rest) # alts) =
     (case match_at items (last_of prev m) rest of
        Some (caps, rest') \<Rightarrow> Some (if cap then m # caps else caps, rest')
      | None \<Rightarrow> try_splits cap items prev alts)"

datatype regexp = Regexp (anchored: bool) (items: "(bool \<times> re) list")

fun find_from :: "regexp \<Rightarrow> char option \<Rightarrow> string \<Rightarrow> string list option" where
  "find_from rx prev s =
     (case match_at (items rx) prev s of
        Some (caps, rest) \<Rightarrow> Some (take (length s - length rest) s # caps)
      | None \<Rightarrow>
          (case s of
             [] \<Rightarrow> None
           | c # cs \<Rightarrow> if anchored rx then None else find_from rx (Some c) cs))"

declare find_from.simps [simp del]

definition FindStringSubmatch :: "regexp \<Rightarrow> string \<Rightarrow> string list option" where
  "FindStringSubmatch rx s = find_from rx None s"

definition MatchString :: "regexp \<Rightarrow> string \<Rightarrow> bool" where
  "MatchString rx s = (FindStringSubmatch rx s \<noteq> None)"

text \<open>\<^verbatim>\<open>^DX de (\S+?)(:?\s*)([0-9.]+)(\s+)(\S+?)(\s+)(.*?)(\s*)([0-9]{4}Z)\<close>\<close>

definition spotPattern :: regexp where
  "spotPattern = Regexp True
     [(False, Lit ''DX de ''),
      (True, Rep non_space 1 None Lazy),
      (True, Cat (Rep is_colon 0 (Some 1) Greedy) (Rep is_space 0 None Greedy)),
      (True, Rep digit_or_dot 1 None Greedy),
      (True, Rep is_space 1 None Greedy),
      (True, Rep non_space 1 None Lazy),
      (True, Rep is_space 1 None Greedy),
      (True, Rep any_char 0 None Lazy),
      (True, Rep is_space 0 None Greedy),
      (True, Cat (Rep is_digit 4 (Some 4) Greedy) (Lit ''Z''))]"

text \<open>\<^verbatim>\<open>\b(?i:QRT)\b\<close>\<close>

definition qrt_items :: "(bool \<times> re) list" where
  "qrt_items = [(False, WordBoundary), (False, LitFold ''QRT''), (False, WordBoundary)]"

definition qrtPattern :: regexp where
  "qrtPattern = Regexp False qrt_items"

definition promptSuffixes :: "string list" where
  "promptSuffixes = [''>'', ''> '', '':'', '': '']"

definition HasSuffix :: "string \<Rightarrow> string \<Rightarrow> bool" where
  "HasSuffix s suffix =
     (length suffix \<le> length s \<and> drop (length s - length suffix) s = suffix)"

definition TrimSuffix :: "string \<Rightarrow> string \<Rightarrow> string" where
  "TrimSuffix s suffix = (if HasSuffix s suffix then take (length s - length suffix) s else s)"

definition ReplaceAll :: "string \<Rightarrow> char \<Rightarrow> string \<Rightarrow> string" where
  \<comment> \<open>\<open>strings.ReplaceAll(s, old, new)\<close> for a one-character \<open>old\<close>\<close>
  "ReplaceAll s old new = concat (map (\<lambda>c. if c = old then new else [c]) s)"

section \<open>Spot registry\<close>

text \<open>
  \<open>cfg\<close>: the three settings the registry code reads. \<open>Timeout\<close> is a
  \<open>time.Duration\<close>, a count of nanoseconds.
\<close>

record cfg =
  QRT :: bool
  OnePerBand :: bool
  Timeout :: int

definition Second :: int where
  "Second = 1000000000"

definition go_quot :: "int \<Rightarrow> int \<Rightarrow> int" where
  \<comment> \<open>Go's integer division truncates toward zero\<close>
  "go_quot a b = sgn a * sgn b * (\<bar>a\<bar> div \<bar>b\<bar>)"

record spotKey =
  freq :: string
  call :: string

text \<open>
  \<open>spot\<close>: the field \<open>id\<close> of the source is \<open>spot_id\<close> here. A \<open>time.Time\<close> is a point
  on an unbounded integer axis of nanoseconds; \<open>expires.Before(now)\<close> is \<open><\<close> on it.
\<close>

record spot =
  spot_id :: int
  expires :: int

record CmdResult =
  Error :: "32 word"
  Message :: string

definition SpotNotFoundError :: "32 word" where
  "SpotNotFoundError = 0x500000BC"

text \<open>
  A radio command. The three command texts are kept as constructors and the
  interpolated values as fields, each holding exactly the value handed to
  \<open>fmt.Sprintf\<close>; \<open>rx_freq\<close> holds the operand \<open>freqKhz\<close> of the expression
  \<open>freqKhz/1000.0\<close>, whose floating-point quotient and \<open>%f\<close> rendering are not computed.
\<close>

datatype mhz = DivBy1000 float64

record spotFields =
  rx_freq :: mhz
  callsign :: string
  spotter_callsign :: string
  comment :: string
  lifetime_seconds :: int

datatype rpc = SpotAdd spotFields | SpotSet int spotFields | SpotRemove int

datatype log_ev = LogRpcError "32 word" string | LogParseFloatError | LogAtoiError

datatype console_ev = SpotEcho "string list" bool string | SetPrompt string | Println string

datatype panic = IndexOutOfRange

text \<open>
  What the code calls but does not define: the radio, as the answer \<open>SendAndWait\<close>
  returns to a command given the commands sent before it; \<open>strconv.ParseFloat(s, 64)\<close>
  with \<open>None\<close> for a non-nil error; and \<open>fmt.Sprintf("%.0f", x)\<close>.
\<close>

record env =
  reply :: "rpc list \<Rightarrow> rpc \<Rightarrow> CmdResult"
  ParseFloat :: "string \<Rightarrow> float64 option"
  Sprintf_f0 :: "float64 \<Rightarrow> string"

text \<open>
  The state the reader loop works on: the global map \<open>spotIds\<close> as an association list
  (an iteration order of the map is the order of the list), the commands sent to the
  radio so far, the error-level log and the console output.
\<close>

record world =
  spotIds :: "(spotKey \<times> spot) list"
  sent :: "rpc list"
  errlog :: "log_ev list"
  console :: "console_ev list"

definition SendAndWait :: "env \<Rightarrow> rpc \<Rightarrow> world \<Rightarrow> CmdResult \<times> world" where
  "SendAndWait e cmd w = (reply e (sent w) cmd, w\<lparr>sent := sent w @ [cmd]\<rparr>)"

definition log_error :: "log_ev \<Rightarrow> world \<Rightarrow> world" where
  "log_error ev w = w\<lparr>errlog := errlog w @ [ev]\<rparr>"

text \<open>
  \<open>strconv.Atoi\<close> on a 64-bit \<open>int\<close>: an optional sign, then one or more decimal digits,
  and a value that fits; \<open>None\<close> for a non-nil error.
\<close>

definition digits_val :: "string \<Rightarrow> int" where
  "digits_val ds = foldl (\<lambda>n c. 10 * n + ((of_char c :: int) - 48)) 0 ds"

definition Atoi :: "string \<Rightarrow> int option" where
  "Atoi s =
     (let neg = (s \<noteq> [] \<and> hd s = CHR ''-'');
          ds = (if s \<noteq> [] \<and> (hd s = CHR ''-'' \<or> hd s = CHR ''+'') then tl s else s)
      in if ds = [] \<or> \<not> list_all is_digit ds then None
         else let n = digits_val ds
              in if neg then (if n \<le> 2 ^ 63 then Some (- n) else None)
                 else (if n < 2 ^ 63 then Some n else None))"

definition mkFields :: "cfg \<Rightarrow> string \<Rightarrow> float64 \<Rightarrow> string \<Rightarrow> string \<Rightarrow> spotFields" where
  \<comment> \<open>the arguments of the \<open>fields\<close> format string of \<open>addSpot\<close>\<close>
  "mkFields c spotCall freqKhz dxCall cmt =
     \<lparr>rx_freq = DivBy1000 freqKhz, callsign = dxCall, spotter_callsign = spotCall,
      comment = cmt, lifetime_seconds = go_quot (Timeout c) Second\<rparr>"

definition zeroResult :: CmdResult where
  "zeroResult = \<lparr>Error = 0, Message = []\<rparr>"

definition addSpot ::
  "env \<Rightarrow> cfg \<Rightarrow> int \<Rightarrow> spotKey \<Rightarrow> string \<Rightarrow> float64 \<Rightarrow> string \<Rightarrow> string \<Rightarrow> world \<Rightarrow> world" where
  "addSpot e c now key spotCall freqKhz dxCall cmt w =
     (let fields = mkFields c spotCall freqKhz dxCall cmt;
          existed = (map_of (spotIds w) key \<noteq> None);
          sp = (case map_of (spotIds w) key of Some v \<Rightarrow> v | None \<Rightarrow> \<lparr>spot_id = 0, expires = 0\<rparr>);
          (res1, w1) = (if existed then SendAndWait e (SpotSet (spot_id sp) fields) w
                        else (zeroResult, w));
          (res, w2) = (if \<not> existed \<or> Error res1 = SpotNotFoundError
                       then SendAndWait e (SpotAdd fields) w1 else (res1, w1))
      in if Error res \<noteq> 0 then log_error (LogRpcError (Error res) (Message res)) w2
         else if \<not> existed then
           (case Atoi (Message res) of
              None \<Rightarrow> log_error LogAtoiError w2
            | Some n \<Rightarrow>
                w2\<lparr>spotIds := AList.update key \<lparr>spot_id = n, expires = now + Timeout c\<rparr> (spotIds w2)\<rparr>)
         else w2\<lparr>spotIds :=
                   AList.update key \<lparr>spot_id = spot_id sp, expires = now + Timeout c\<rparr> (spotIds w2)\<rparr>)"

definition removeSpot :: "env \<Rightarrow> spotKey \<Rightarrow> world \<Rightarrow> world" where
  "removeSpot e key w =
     (let w1 = (case map_of (spotIds w) key of
                  Some sp \<Rightarrow>
                    (let (res, w') = SendAndWait e (SpotRemove (spot_id sp)) w
                     in if Error res \<noteq> 0 \<and> Error res \<noteq> SpotNotFoundError
                        then log_error (LogRpcError (Error res) (Message res)) w' else w')
                | None \<Rightarrow> w)
      in w1\<lparr>spotIds := AList.delete key (spotIds w1)\<rparr>)"

text \<open>
  \<open>cleanupSpots\<close>: the \<open>range\<close> loop visits the entries the map holds, in the list's
  order; \<open>sweep_step\<close> is its body, deleting the key when \<open>expires\<close> is before \<open>now\<close>.
\<close>

definition sweep_step :: "int \<Rightarrow> spotKey \<times> spot \<Rightarrow> (spotKey \<times> spot) list \<Rightarrow> (spotKey \<times> spot) list" where
  "sweep_step now = (\<lambda>(k, v) m. if expires v < now then AList.delete k m else m)"

definition cleanupSpots :: "int \<Rightarrow> world \<Rightarrow> world" where
  "cleanupSpots now w = w\<lparr>spotIds := fold (sweep_step now) (spotIds w) (spotIds w)\<rparr>"

definition eventKey :: "env \<Rightarrow> cfg \<Rightarrow> float64 \<Rightarrow> string \<Rightarrow> spotKey" where
  \<comment> \<open>the key computed by \<open>sendToFlex\<close>\<close>
  "eventKey e c freqKhz dxCall =
     (if OnePerBand c then \<lparr>freq = getBand freqKhz, call = dxCall\<rparr>
      else \<lparr>freq = Sprintf_f0 e freqKhz, call = dxCall\<rparr>)"

text \<open>
  \<open>sendToFlex\<close>. Reading \<open>m[7]\<close> panics on a shorter \<open>m\<close>. The four
  \<open>strings.ReplaceAll\<close> calls are statements whose results the source drops; they are
  bound here to names nothing reads.
\<close>

definition sendToFlex :: "env \<Rightarrow> cfg \<Rightarrow> int \<Rightarrow> string list \<Rightarrow> bool \<Rightarrow> world \<Rightarrow> panic + world" where
  "sendToFlex e c now m remove w =
     (if length m < 8 then Inl IndexOutOfRange
      else
        let spotCall = m ! 1; freqTxt = m ! 3; dxCall = m ! 5; cmt = m ! 7
        in case ParseFloat e freqTxt of
             None \<Rightarrow> Inr (log_error LogParseFloatError w)
           | Some freqKhz \<Rightarrow>
               let key = eventKey e c freqKhz dxCall;
                   dropped1 = ReplaceAll spotCall CHR '' '' [CHR 0x7F];
                   dropped2 = ReplaceAll freqTxt CHR '' '' [CHR 0x7F];
                   dropped3 = ReplaceAll dxCall CHR '' '' [CHR 0x7F];
                   dropped4 = ReplaceAll cmt CHR '' '' [CHR 0x7F]
               in Inr (if remove then removeSpot e key w
                       else addSpot e c now key spotCall freqKhz dxCall cmt w))"

definition logToConsole :: "env \<Rightarrow> string list \<Rightarrow> bool \<Rightarrow> world \<Rightarrow> panic + world" where
  "logToConsole e m remove w =
     (if length m < 4 then Inl IndexOutOfRange
      else case ParseFloat e (m ! 3) of
             None \<Rightarrow> Inr (log_error LogParseFloatError w)
           | Some freqKhz \<Rightarrow>
               if length m < 10 then Inl IndexOutOfRange
               else Inr (w\<lparr>console := console w @ [SpotEcho (take 9 (tl m)) remove (getBand freqKhz)]\<rparr>))"

definition isRemovalRequest :: "cfg \<Rightarrow> string \<Rightarrow> bool" where
  \<comment> \<open>\<open>cfg.QRT && qrtPattern.MatchString(m[7])\<close>\<close>
  "isRemovalRequest c cmt = (QRT c \<and> MatchString qrtPattern cmt)"

text \<open>
  One turn of the reader loop of \<open>main\<close> on a line of the cluster. \<open>t_add\<close> and
  \<open>t_sweep\<close> are the two readings of the clock, in \<open>addSpot\<close> and in \<open>cleanupSpots\<close>.
\<close>

definition process_line :: "env \<Rightarrow> cfg \<Rightarrow> int \<Rightarrow> int \<Rightarrow> string \<Rightarrow> world \<Rightarrow> panic + world" where
  "process_line e c t_add t_sweep line w =
     (case FindStringSubmatch spotPattern line of
        Some m \<Rightarrow>
          if QRT c \<and> length m < 8 then Inl IndexOutOfRange
          else
            let remove = isRemovalRequest c (m ! 7)
            in (case logToConsole e m remove w of
                  Inl p \<Rightarrow> Inl p
                | Inr w1 \<Rightarrow>
                    (case sendToFlex e c t_add m remove w1 of
                       Inl p \<Rightarrow> Inl p
                     | Inr w2 \<Rightarrow> Inr (cleanupSpots t_sweep w2)))
      | None \<Rightarrow>
          (case find (HasSuffix line) promptSuffixes of
             Some suffix \<Rightarrow> Inr (w\<lparr>console := console w @ [SetPrompt (TrimSuffix line suffix)]\<rparr>)
           | None \<Rightarrow> Inr (w\<lparr>console := console w @ [Println line]\<rparr>)))"

section \<open>Sequences of spot events\<close>

text \<open>
  A spot event: what \<open>sendToFlex\<close> hands to \<open>addSpot\<close> for a spot line that asks for no
  removal and whose frequency text parsed, with the two clock readings of its turn.
\<close>

record spotEvent =
  spotter :: string
  freqKhz :: float64
  dx :: string
  remark :: string
  t_add :: int
  t_sweep :: int

definition evKey :: "env \<Rightarrow> cfg \<Rightarrow> spotEvent \<Rightarrow> spotKey" where
  "evKey e c ev = eventKey e c (freqKhz ev) (dx ev)"


definition upsert_sweep :: "env \<Rightarrow> cfg \<Rightarrow> spotEvent \<Rightarrow> world \<Rightarrow> world" where
  "upsert_sweep e c ev w =
     cleanupSpots (t_sweep ev)
       (addSpot e c (t_add ev) (evKey e c ev) (spotter ev) (freqKhz ev) (dx ev) (remark ev) w)"



definition registry_kept :: "panic + world \<Rightarrow> world \<Rightarrow> bool" where
  \<comment> \<open>the call returned, with the registry as it was in \<open>w\<close>\<close>
  "registry_kept r w = (case r of Inl p \<Rightarrow> False | Inr w' \<Rightarrow> spotIds w' = spotIds w)"

section \<open>A concrete environment\<close>

fun show_nat :: "nat \<Rightarrow> string" where
  "show_nat n =
     (if n < 10 then [''0123456789'' ! n] else show_nat (n div 10) @ [''0123456789'' ! (n mod 10)])"

declare show_nat.simps [simp del]

text \<open>
  A reading of decimal texts, digits with at most one point. \<open>strconv.ParseFloat\<close> agrees
  with it on every such text whose value is a \<open>float64\<close> (as \<open>14025.0\<close> is), and on the
  texts it refuses.
\<close>

definition parseDecimal :: "string \<Rightarrow> float64 option" where
  "parseDecimal s =
     (let ip = takeWhile is_digit s; r = dropWhile is_digit s
      in if r = [] then (if ip = [] then None else Some (Finite (of_int (digits_val ip))))
         else if hd r = CHR ''.'' \<and> list_all is_digit (tl r) \<and> (ip \<noteq> [] \<or> tl r \<noteq> [])
              then Some (Finite (of_int (digits_val (ip @ tl r)) / 10 ^ length (tl r)))
              else None)"

definition round_half_even :: "rat \<Rightarrow> int" where
  "round_half_even q =
     (let n = \<lfloor>q\<rfloor>; d = q - of_int n
      in if d < 1 / 2 then n else if 1 / 2 < d then n + 1 else if even n then n else n + 1)"

fun fmt_f0 :: "float64 \<Rightarrow> string" where
  "fmt_f0 (Finite q) =
     (if q < 0 then ''-'' @ show_nat (nat (round_half_even (- q)))
      else show_nat (nat (round_half_even q)))"
| "fmt_f0 PosInf = ''+Inf''"
| "fmt_f0 NegInf = ''-Inf''"
| "fmt_f0 NaN = ''NaN''"

definition is_add :: "rpc \<Rightarrow> bool" where
  "is_add cmd = (case cmd of SpotAdd _ \<Rightarrow> True | _ \<Rightarrow> False)"

text \<open>A radio that accepts every command and numbers the spots it adds from 7.\<close>

definition radio_ok :: "rpc list \<Rightarrow> rpc \<Rightarrow> CmdResult" where
  "radio_ok history cmd =
     (case cmd of
        SpotAdd _ \<Rightarrow> \<lparr>Error = 0, Message = show_nat (7 + length (filter is_add history))\<rparr>
      | _ \<Rightarrow> \<lparr>Error = 0, Message = []\<rparr>)"

text \<open>A radio that has dropped every spot by the time it is asked to change or remove one.\<close>

definition radio_forgetful :: "rpc list \<Rightarrow> rpc \<Rightarrow> CmdResult" where
  "radio_forgetful history cmd =
     (case cmd of
        SpotAdd _ \<Rightarrow> radio_ok history cmd
      | _ \<Rightarrow> \<lparr>Error = SpotNotFoundError, Message = []\<rparr>)"

text \<open>A radio that refuses every command with the code \<open>0x50000001\<close>.\<close>

definition radio_refusing :: "rpc list \<Rightarrow> rpc \<Rightarrow> CmdResult" where
  "radio_refusing history cmd = \<lparr>Error = 0x50000001, Message = ''refused''\<rparr>"

text \<open>A radio that accepts an add and answers it with a text that is no number.\<close>

definition radio_wordy :: "rpc list \<Rightarrow> rpc \<Rightarrow> CmdResult" where
  "radio_wordy history cmd = \<lparr>Error = 0, Message = ''ok''\<rparr>"

definition env0 :: env where
  "env0 = \<lparr>reply = radio_ok, ParseFloat = parseDecimal, Sprintf_f0 = fmt_f0\<rparr>"

definition cfg0 :: cfg where
  \<comment> \<open>the defaults of the flags: five minutes, \<open>-qrt\<close> and \<open>-one-per-band\<close> set\<close>
  "cfg0 = \<lparr>QRT = True, OnePerBand = True, Timeout = 300 * Second\<rparr>"

definition world0 :: world where
  "world0 = \<lparr>spotIds = [], sent = [], errlog = [], console = []\<rparr>"

definition key20 :: spotKey where
  "key20 = \<lparr>freq = ''20m'', call = ''W1XYZ''\<rparr>"

definition key40 :: spotKey where
  "key40 = \<lparr>freq = ''40m'', call = ''K9AAA''\<rparr>"

text \<open>A registry that tracks W1XYZ on 20m under the radio's id 3.\<close>

definition world3 :: world where
  "world3 = world0\<lparr>spotIds := [(key20, \<lparr>spot_id = 3, expires = 2000\<rparr>)]\<rparr>"



text \<open>What \<open>spotPattern\<close> finds in two spot lines, the second with a frequency text that is no number.\<close>

definition line20 :: string where
  "line20 = ''DX de K1ABC: 14025.0 W1XYZ CQ CQ DX 1234Z''"

definition m20 :: "string list" where
  "m20 = [''DX de K1ABC: 14025.0 W1XYZ CQ CQ DX 1234Z'', ''K1ABC'', '': '', ''14025.0'', '' '',
          ''W1XYZ'', '' '', ''CQ CQ DX'', '' '', ''1234Z'']"

definition line_unparsed :: string where
  "line_unparsed = ''DX de K1ABC: 1.2.3 W1XYZ CQ 1234Z''"

definition m_unparsed :: "string list" where
  "m_unparsed = [''DX de K1ABC: 1.2.3 W1XYZ CQ 1234Z'', ''K1ABC'', '': '', ''1.2.3'', '' '',
                 ''W1XYZ'', '' '', ''CQ'', '' '', ''1234Z'']"

definition fields20 :: spotFields where
  "fields20 = mkFields cfg0 ''K1ABC'' (Finite 14025) ''W1XYZ'' ''CQ CQ DX''"

section \<open>The band classifier returns the greatest edge at or below the frequency\<close>

lemma getBand_loop_props:
  "i < length edges \<Longrightarrow>
     i \<le> getBand_loop edges f i \<and> getBand_loop edges f i < length edges \<and>
     (\<forall>k. i < k \<and> k \<le> getBand_loop edges f i \<longrightarrow> ge64 f (minFreq (edges ! k))) \<and>
     (getBand_loop edges f i + 1 < length edges \<longrightarrow>
        \<not> ge64 f (minFreq (edges ! (getBand_loop edges f i + 1))))"
proof (induction edges f i rule: getBand_loop.induct)
  case (1 edges fr i)
  show ?case
  proof (cases "i + 1 < length edges \<and> ge64 fr (minFreq (edges ! (i + 1)))")
    case True
    have eq: "getBand_loop edges fr i = getBand_loop edges fr (i + 1)"
      using True by (subst getBand_loop.simps) auto
    from True have "i + 1 < length edges" by simp
    from "1.IH"[OF True this] True show ?thesis
      unfolding eq
      by (metis Suc_eq_plus1 Suc_leD Suc_leI le_neq_implies_less)
  next
    case False
    have eq: "getBand_loop edges fr i = i"
      using False by (subst getBand_loop.simps) auto
    from False "1.prems" show ?thesis unfolding eq by auto
  qed
qed

lemma thresholds: "map minFreq bandEdges = map Finite bandThresholds"
  by (simp add: bandEdges_def mkEdge_def bandThresholds_def)

lemma length_bandEdges: "length bandEdges = 19"
  by (simp add: bandEdges_def)

lemma length_thr: "length bandThresholds = 19"
  by (simp add: bandThresholds_def)

lemma thr_sorted: "sorted_wrt (<) bandThresholds"
  by (simp add: bandThresholds_def)

lemma minFreq_nth: "k < 19 \<Longrightarrow> minFreq (bandEdges ! k) = Finite (bandThresholds ! k)"
proof -
  assume k: "k < 19"
  then have "minFreq (bandEdges ! k) = map minFreq bandEdges ! k"
    by (simp add: length_bandEdges)
  also have "\<dots> = Finite (bandThresholds ! k)"
    using k by (simp add: thresholds length_thr)
  finally show ?thesis .
qed

lemma thr_mono: "k \<le> l \<Longrightarrow> l < 19 \<Longrightarrow> bandThresholds ! k \<le> bandThresholds ! l"
  using thr_sorted
  by (metis length_thr le_neq_implies_less less_imp_le order_refl sorted_wrt_nth_less)

lemma ge64_down: "ge64 f (Finite a) \<Longrightarrow> b \<le> a \<Longrightarrow> ge64 f (Finite b)"
  by (cases f) auto

lemma getBand_below_zero: "\<not> ge64 f (Finite 0) \<Longrightarrow> getBand_loop bandEdges f 0 = 0"
proof -
  assume neg: "\<not> ge64 f (Finite 0)"
  have "minFreq (bandEdges ! 1) = Finite 1800"
    by (simp add: bandEdges_def mkEdge_def)
  moreover have "\<not> ge64 f (Finite 1800)"
    using neg ge64_down[of f 1800 0] by auto
  ultimately show ?thesis
    by (subst getBand_loop.simps) simp
qed

text \<open>
  Claim C5. For every frequency, \<open>getBand\<close> returns the name of an edge of the table
  whose threshold is at or below the frequency and is the greatest such threshold; a
  frequency below the first edge (a negative one, or NaN, which compares below
  everything) and the frequency 0 get the lowest band, \<open>LFMF\<close>. \<open>getBand\<close> is a total
  function: there is no error path.
\<close>

theorem getBand_greatest_edge:
  "(ge64 f (Finite 0) \<longrightarrow>
      (\<exists>e \<in> set bandEdges. getBand f = name e \<and> ge64 f (minFreq e) \<and>
         (\<forall>e' \<in> set bandEdges. ge64 f (minFreq e') \<longrightarrow> ge64 (minFreq e) (minFreq e')))) \<and>
   (\<not> ge64 f (Finite 0) \<longrightarrow> getBand f = ''LFMF'') \<and>
   getBand (Finite 0) = ''LFMF''"
proof (intro conjI impI)
  assume pos: "ge64 f (Finite 0)"
  define j where "j = getBand_loop bandEdges f 0"
  have props: "j < 19"
      "\<And>k. 0 < k \<Longrightarrow> k \<le> j \<Longrightarrow> ge64 f (minFreq (bandEdges ! k))"
      "j + 1 < 19 \<Longrightarrow> \<not> ge64 f (minFreq (bandEdges ! (j + 1)))"
    using getBand_loop_props[of 0 bandEdges f] unfolding j_def length_bandEdges by auto
  let ?e = "bandEdges ! j"
  have mem: "?e \<in> set bandEdges"
    using props(1) by (simp add: length_bandEdges)
  have here: "ge64 f (minFreq ?e)"
  proof (cases "j = 0")
    case True
    then show ?thesis using pos by (simp add: minFreq_nth bandThresholds_def)
  next
    case False
    then show ?thesis using props(2)[of j] by simp
  qed
  have top: "ge64 (minFreq ?e) (minFreq e')"
    if e': "e' \<in> set bandEdges" and le: "ge64 f (minFreq e')" for e'
  proof -
    from e' obtain k where k: "k < 19" "e' = bandEdges ! k"
      by (auto simp: in_set_conv_nth length_bandEdges)
    have "k \<le> j"
    proof (rule ccontr)
      assume "\<not> k \<le> j"
      then have jk: "j + 1 \<le> k" by simp
      with k have j1: "j + 1 < 19" by simp
      have "bandThresholds ! (j + 1) \<le> bandThresholds ! k" using jk k(1) by (rule thr_mono)
      moreover have "ge64 f (Finite (bandThresholds ! k))"
        using le k by (simp add: minFreq_nth)
      ultimately have "ge64 f (Finite (bandThresholds ! (j + 1)))" by (rule ge64_down[rotated])
      then show False using props(3)[OF j1] j1 by (simp add: minFreq_nth)
    qed
    then have "bandThresholds ! k \<le> bandThresholds ! j" using props(1) by (rule thr_mono)
    then show ?thesis using k props(1) by (simp add: minFreq_nth)
  qed
  show "\<exists>e \<in> set bandEdges. getBand f = name e \<and> ge64 f (minFreq e) \<and>
         (\<forall>e' \<in> set bandEdges. ge64 f (minFreq e') \<longrightarrow> ge64 (minFreq e) (minFreq e'))"
    using mem here top by (auto simp: getBand_def j_def)
next
  assume "\<not> ge64 f (Finite 0)"
  then show "getBand f = ''LFMF''"
    by (simp add: getBand_def getBand_below_zero) (simp add: bandEdges_def mkEdge_def)
next
  show "getBand (Finite 0) = ''LFMF''"
    by (simp add: getBand_def getBand_loop.simps bandEdges_def mkEdge_def)
qed

theorem getBand_greatest_edge_witness:
  "ge64 (Finite 14025) (Finite 0) \<and>
   (\<exists>e \<in> set bandEdges. getBand (Finite 14025) = name e \<and> ge64 (Finite 14025) (minFreq e) \<and>
         (\<forall>e' \<in> set bandEdges. ge64 (Finite 14025) (minFreq e') \<longrightarrow> ge64 (minFreq e) (minFreq e'))) \<and>
   getBand (Finite 14025) = ''20m'' \<and>
   getBand (Finite 14000) = ''20m'' \<and>
   getBand (Finite (139999 / 10)) = ''30m'' \<and>
   \<not> ge64 (Finite (- 1)) (Finite 0) \<and> getBand (Finite (- 1)) = ''LFMF''"
  using getBand_greatest_edge[of "Finite 14025"] getBand_greatest_edge[of "Finite (- 1)"]
  by (simp add: getBand_def getBand_loop.simps bandEdges_def mkEdge_def)

section \<open>The registry operations, case by case\<close>

lemma addSpot_absent:
  "map_of (spotIds w) key = None \<Longrightarrow>
   addSpot e c now key spotCall f dxCall cmt w =
     (let fields = mkFields c spotCall f dxCall cmt;
          r = reply e (sent w) (SpotAdd fields);
          w2 = w\<lparr>sent := sent w @ [SpotAdd fields]\<rparr>
      in if Error r \<noteq> 0 then log_error (LogRpcError (Error r) (Message r)) w2
         else case Atoi (Message r) of
                None \<Rightarrow> log_error LogAtoiError w2
              | Some n \<Rightarrow> w2\<lparr>spotIds := AList.update key \<lparr>spot_id = n, expires = now + Timeout c\<rparr> (spotIds w)\<rparr>)"
  by (simp add: addSpot_def SendAndWait_def Let_def zeroResult_def split: option.splits)

lemma addSpot_present:
  "map_of (spotIds w) key = Some sp \<Longrightarrow>
   addSpot e c now key spotCall f dxCall cmt w =
     (let fields = mkFields c spotCall f dxCall cmt;
          r1 = reply e (sent w) (SpotSet (spot_id sp) fields);
          w1 = w\<lparr>sent := sent w @ [SpotSet (spot_id sp) fields]\<rparr>;
          refreshed = AList.update key \<lparr>spot_id = spot_id sp, expires = now + Timeout c\<rparr> (spotIds w)
      in if Error r1 = SpotNotFoundError then
           (let r = reply e (sent w1) (SpotAdd fields);
                w2 = w1\<lparr>sent := sent w1 @ [SpotAdd fields]\<rparr>
            in if Error r \<noteq> 0 then log_error (LogRpcError (Error r) (Message r)) w2
               else w2\<lparr>spotIds := refreshed\<rparr>)
         else if Error r1 \<noteq> 0 then log_error (LogRpcError (Error r1) (Message r1)) w1
         else w1\<lparr>spotIds := refreshed\<rparr>)"
  by (simp add: addSpot_def SendAndWait_def Let_def)

lemma removeSpot_absent:
  "map_of (spotIds w) key = None \<Longrightarrow>
   removeSpot e key w = w\<lparr>spotIds := AList.delete key (spotIds w)\<rparr>"
  by (simp add: removeSpot_def)

lemma removeSpot_present:
  "map_of (spotIds w) key = Some sp \<Longrightarrow>
   removeSpot e key w =
     (let r = reply e (sent w) (SpotRemove (spot_id sp));
          w1 = w\<lparr>sent := sent w @ [SpotRemove (spot_id sp)]\<rparr>;
          w2 = (if Error r \<noteq> 0 \<and> Error r \<noteq> SpotNotFoundError
                then log_error (LogRpcError (Error r) (Message r)) w1 else w1)
      in w2\<lparr>spotIds := AList.delete key (spotIds w)\<rparr>)"
  by (simp add: removeSpot_def SendAndWait_def Let_def log_error_def)


lemma sendToFlex_unparsed:
  "8 \<le> length m \<Longrightarrow> ParseFloat e (m ! 3) = None \<Longrightarrow>
   sendToFlex e c now m remove w = Inr (log_error LogParseFloatError w)"
  by (simp add: sendToFlex_def)

lemma sendToFlex_add:
  "8 \<le> length m \<Longrightarrow> ParseFloat e (m ! 3) = Some f \<Longrightarrow>
   sendToFlex e c now m False w =
     Inr (addSpot e c now (eventKey e c f (m ! 5)) (m ! 1) f (m ! 5) (m ! 7) w)"
  by (simp add: sendToFlex_def Let_def)

lemma sendToFlex_remove:
  "8 \<le> length m \<Longrightarrow> ParseFloat e (m ! 3) = Some f \<Longrightarrow>
   sendToFlex e c now m True w = Inr (removeSpot e (eventKey e c f (m ! 5)) w)"
  by (simp add: sendToFlex_def Let_def)

lemma process_line_other:
  "FindStringSubmatch spotPattern line = None \<Longrightarrow>
   process_line e c t1 t2 line w =
     Inr (w\<lparr>console := console w @
            [case find (HasSuffix line) promptSuffixes of
               Some suffix \<Rightarrow> SetPrompt (TrimSuffix line suffix)
             | None \<Rightarrow> Println line]\<rparr>)"
  by (simp add: process_line_def split: option.splits)

subsection \<open>What the spot pattern captures\<close>

lemma match_at_captures:
  "match_at its prev s = Some (caps, rest) \<Longrightarrow> length caps = length (filter fst its)"
  "try_splits cap its prev alts = Some (caps, rest) \<Longrightarrow>
     length caps = (if cap then 1 else 0) + length (filter fst its)"
proof (induction its prev s and cap its prev alts arbitrary: caps rest and caps rest
    rule: match_at_try_splits.induct)
  case (1 prev s)
  then show ?case by simp
next
  case (2 cap r items prev s)
  then show ?case by simp
next
  case (3 cap items prev)
  then show ?case by simp
next
  case (4 cap items prev m rest' alts)
  show ?case
  proof (cases "match_at items (last_of prev m) rest'")
    case None
    with "4.prems" "4.IH"(2) show ?thesis by simp
  next
    case (Some a)
    obtain caps' r' where a: "a = (caps', r')" by (cases a)
    from "4.IH"(1)[of caps' r'] Some a have "length caps' = length (filter fst items)" by simp
    with "4.prems" Some a show ?thesis by (auto split: if_splits)
  qed
qed

lemma spotPattern_ten: "FindStringSubmatch spotPattern line = Some m \<Longrightarrow> length m = 10"
proof -
  assume h: "FindStringSubmatch spotPattern line = Some m"
  have a: "anchored spotPattern" by (simp add: spotPattern_def)
  have n: "length (filter fst (items spotPattern)) = 9" by (simp add: spotPattern_def)
  from h obtain caps rest where m: "match_at (items spotPattern) None line = Some (caps, rest)"
      and mm: "m = take (length line - length rest) line # caps"
    unfolding FindStringSubmatch_def
    by (subst (asm) find_from.simps) (auto simp: a split: option.splits list.splits)
  from match_at_captures(1)[OF m] n mm show ?thesis by simp
qed

lemma process_line_unparsed:
  assumes m: "FindStringSubmatch spotPattern line = Some m"
    and pf: "ParseFloat e (m ! 3) = None"
  shows "process_line e c t1 t2 line w =
     Inr (cleanupSpots t2 (log_error LogParseFloatError (log_error LogParseFloatError w)))"
proof -
  have len: "length m = 10" using m by (rule spotPattern_ten)
  then have l8: "8 \<le> length m" by simp
  have echo: "logToConsole e m r w = Inr (log_error LogParseFloatError w)" for r
    by (simp add: logToConsole_def len pf)
  show ?thesis
    by (simp add: process_line_def m len echo sendToFlex_unparsed[OF l8 pf])
qed

subsection \<open>The sweep\<close>

lemma sweep_step_map_of:
  "map_of (sweep_step now (k', v') m) k = (if k = k' \<and> expires v' < now then None else map_of m k)"
  by (simp add: sweep_step_def delete_conv)

lemma fold_sweep_map_of:
  "map_of (fold (sweep_step now) xs m) k =
     (if \<exists>v. (k, v) \<in> set xs \<and> expires v < now then None else map_of m k)"
proof (induction xs arbitrary: m)
  case Nil
  then show ?case by simp
next
  case (Cons x xs)
  obtain k' v' where x: "x = (k', v')" by (cases x)
  show ?case
    unfolding x by (auto simp: Cons.IH sweep_step_map_of)
qed

lemma cleanupSpots_fold:
  "spotIds (cleanupSpots now w) = fold (sweep_step now) (spotIds w) (spotIds w)"
  by (simp add: cleanupSpots_def sweep_step_def)

lemma cleanupSpots_map_of_cases:
  "map_of (spotIds (cleanupSpots now w)) k = None \<or>
   map_of (spotIds (cleanupSpots now w)) k = map_of (spotIds w) k"
  by (simp add: cleanupSpots_fold fold_sweep_map_of)

lemma cleanupSpots_sent: "sent (cleanupSpots now w) = sent w"
  by (simp add: cleanupSpots_def)

lemma fold_sweep_distinct:
  "distinct (map fst m) \<Longrightarrow> distinct (map fst (fold (sweep_step now) xs m))"
proof (induction xs arbitrary: m)
  case Nil
  then show ?case by simp
next
  case (Cons x xs)
  obtain k' v' where x: "x = (k', v')" by (cases x)
  have "distinct (map fst (sweep_step now x m))"
    unfolding x using Cons.prems by (simp add: sweep_step_def distinct_delete)
  then show ?case using Cons.IH by simp
qed

subsection \<open>The registry holds one entry per key\<close>

lemma addSpot_distinct:
  "distinct (map fst (spotIds w)) \<Longrightarrow>
   distinct (map fst (spotIds (addSpot e c now key spotCall f dxCall cmt w)))"
  by (cases "map_of (spotIds w) key")
     (simp_all add: addSpot_absent addSpot_present Let_def log_error_def distinct_update
        split: option.splits)

lemma removeSpot_distinct:
  "distinct (map fst (spotIds w)) \<Longrightarrow> distinct (map fst (spotIds (removeSpot e key w)))"
  by (cases "map_of (spotIds w) key")
     (simp_all add: removeSpot_absent removeSpot_present Let_def log_error_def distinct_delete)

lemma cleanupSpots_distinct:
  "distinct (map fst (spotIds w)) \<Longrightarrow> distinct (map fst (spotIds (cleanupSpots now w)))"
  by (simp add: cleanupSpots_fold fold_sweep_distinct)

lemma sendToFlex_distinct:
  "distinct (map fst (spotIds w)) \<Longrightarrow> sendToFlex e c now m remove w = Inr w' \<Longrightarrow>
   distinct (map fst (spotIds w'))"
  by (auto simp: sendToFlex_def Let_def log_error_def addSpot_distinct removeSpot_distinct
      split: if_splits option.splits)

lemma logToConsole_spotIds:
  "logToConsole e m remove w = Inr w' \<Longrightarrow> spotIds w' = spotIds w"
  by (auto simp: logToConsole_def log_error_def split: if_splits option.splits)

text \<open>
  The registry is a Go map, so it never holds two entries for one key. The association list of
  the model starts empty and every line the reader loop handles keeps its keys distinct.
\<close>

lemma process_line_distinct:
  assumes d: "distinct (map fst (spotIds w))"
    and r: "process_line e c t1 t2 line w = Inr w'"
  shows "distinct (map fst (spotIds w'))"
proof (cases "FindStringSubmatch spotPattern line")
  case None
  with r d show ?thesis by (auto simp: process_line_other)
next
  case (Some m)
  with r obtain w1 w2 where
    l: "logToConsole e m (isRemovalRequest c (m ! 7)) w = Inr w1"
    and s: "sendToFlex e c t1 m (isRemovalRequest c (m ! 7)) w1 = Inr w2"
    and w': "w' = cleanupSpots t2 w2"
    by (auto simp: process_line_def Let_def split: if_splits sum.splits)
  from d logToConsole_spotIds[OF l] have "distinct (map fst (spotIds w1))" by simp
  then have "distinct (map fst (spotIds w2))" using s by (rule sendToFlex_distinct)
  then show ?thesis unfolding w' by (rule cleanupSpots_distinct)
qed

subsection \<open>Evaluations in the concrete environment\<close>

lemmas example_defs = env0_def cfg0_def world0_def world3_def key20_def key40_def fields20_def
  radio_ok_def radio_forgetful_def radio_refusing_def radio_wordy_def SpotNotFoundError_def
  mkFields_def go_quot_def Second_def

lemma find_line20: "FindStringSubmatch spotPattern line20 = Some m20"
  unfolding line20_def m20_def by code_simp

lemma find_line_unparsed: "FindStringSubmatch spotPattern line_unparsed = Some m_unparsed"
  unfolding line_unparsed_def m_unparsed_def by code_simp

lemma parse_14025: "parseDecimal ''14025.0'' = Some (Finite 14025)"
  by (simp add: parseDecimal_def is_digit_def digits_val_def)


lemma getBand_14025: "getBand (Finite 14025) = ''20m''"
  by (simp add: getBand_def getBand_loop.simps bandEdges_def mkEdge_def)


lemma find_prompt: "FindStringSubmatch spotPattern ''login: '' = None"
  by code_simp

lemma find_plain: "FindStringSubmatch spotPattern ''Hello K1ABC, this is a DX cluster'' = None"
  by code_simp

lemma no_qrt_in_comment20: "MatchString qrtPattern ''CQ CQ DX'' = False"
  by code_simp

lemma radio_ok_first_add: "radio_ok [] (SpotAdd fs) = \<lparr>Error = 0, Message = ''7''\<rparr>"
  by (simp add: radio_ok_def show_nat.simps)

lemma world0_sel: "spotIds world0 = []" "sent world0 = []" "errlog world0 = []" "console world0 = []"
  by (simp_all add: world0_def)

lemma Atoi_7: "Atoi ''7'' = Some 7"
  by (simp add: Atoi_def digits_val_def is_digit_def)

section \<open>The sweep removes the entries that expired before now\<close>

text \<open>
  Claim C3. As stated the claim fails at the boundary: \<open>cleanupSpots\<close> tests
  \<open>expires.Before(now)\<close>, so an entry whose \<open>expires\<close> equals \<open>now\<close> stays (the second
  theorem below). What holds, for a registry with one entry per key as a Go map has: after
  the sweep a key is absent when its entry's \<open>expires\<close> was strictly before \<open>now\<close>, every
  other entry is retained unchanged, and no command is sent to the radio.
\<close>

theorem cleanupSpots_removes_strictly_expired:
  "distinct (map fst (spotIds w)) \<Longrightarrow>
   map_of (spotIds (cleanupSpots now w)) k =
     (case map_of (spotIds w) k of
        None \<Rightarrow> None
      | Some v \<Rightarrow> if expires v < now then None else Some v) \<and>
   sent (cleanupSpots now w) = sent w"
proof -
  assume d: "distinct (map fst (spotIds w))"
  have "(\<exists>v. (k, v) \<in> set (spotIds w) \<and> expires v < now) =
        (\<exists>v. map_of (spotIds w) k = Some v \<and> expires v < now)"
    using d by simp
  then show ?thesis
    by (auto simp: cleanupSpots_fold fold_sweep_map_of cleanupSpots_sent split: option.splits)
qed

theorem cleanupSpots_removes_strictly_expired_witness:
  "distinct (map fst [(key20, \<lparr>spot_id = 7, expires = 9\<rparr>), (key40, \<lparr>spot_id = 8, expires = 11\<rparr>)]) \<and>
   map_of (spotIds (cleanupSpots 10 (world0\<lparr>spotIds := [(key20, \<lparr>spot_id = 7, expires = 9\<rparr>), (key40, \<lparr>spot_id = 8, expires = 11\<rparr>)]\<rparr>))) key20 = None \<and>
   map_of (spotIds (cleanupSpots 10 (world0\<lparr>spotIds := [(key20, \<lparr>spot_id = 7, expires = 9\<rparr>), (key40, \<lparr>spot_id = 8, expires = 11\<rparr>)]\<rparr>))) key40 = Some \<lparr>spot_id = 8, expires = 11\<rparr>"
  using cleanupSpots_removes_strictly_expired[of "world0\<lparr>spotIds := [(key20, \<lparr>spot_id = 7, expires = 9\<rparr>), (key40, \<lparr>spot_id = 8, expires = 11\<rparr>)]\<rparr>" 10 key20]
    cleanupSpots_removes_strictly_expired[of "world0\<lparr>spotIds := [(key20, \<lparr>spot_id = 7, expires = 9\<rparr>), (key40, \<lparr>spot_id = 8, expires = 11\<rparr>)]\<rparr>" 10 key40]
  by (simp add: key20_def key40_def world0_def)

text \<open>
  Claim C3, as stated, at a concrete registry: the one entry expires exactly at the time of
  the sweep, that is at or before \<open>now\<close>, and the sweep keeps it.
\<close>

theorem cleanupSpots_keeps_entry_expiring_now:
  "expires \<lparr>spot_id = 7, expires = 10\<rparr> \<le> 10 \<and>
   map_of (spotIds (cleanupSpots 10 (world0\<lparr>spotIds := [(key20, \<lparr>spot_id = 7, expires = 10\<rparr>)]\<rparr>))) key20
     = Some \<lparr>spot_id = 7, expires = 10\<rparr>"
  by (simp add: cleanupSpots_def sweep_step_def world0_def)

section \<open>Removal deletes the entry whatever the radio answers\<close>

text \<open>
  Claim C4. \<open>removeSpot\<close> leaves the registry without an entry for the key and with
  every other entry as it was, whatever the radio answers. When the key had an entry, exactly
  one command is sent, \<open>spot remove\<close> with the stored id, and the answer is logged as an
  error only when its code is neither 0 nor the not-found code; when the key had no entry,
  nothing is sent and nothing is logged.
\<close>

theorem removeSpot_deletes_entry:
  "map_of (spotIds (removeSpot e key w)) = (map_of (spotIds w))(key := None) \<and>
   (case map_of (spotIds w) key of
      None \<Rightarrow> sent (removeSpot e key w) = sent w \<and> errlog (removeSpot e key w) = errlog w
    | Some sp \<Rightarrow>
        sent (removeSpot e key w) = sent w @ [SpotRemove (spot_id sp)] \<and>
        errlog (removeSpot e key w) =
          errlog w @
            (if Error (reply e (sent w) (SpotRemove (spot_id sp))) = 0 \<or>
                Error (reply e (sent w) (SpotRemove (spot_id sp))) = SpotNotFoundError
             then []
             else [LogRpcError (Error (reply e (sent w) (SpotRemove (spot_id sp))))
                               (Message (reply e (sent w) (SpotRemove (spot_id sp))))]))"
proof (cases "map_of (spotIds w) key")
  case None
  then show ?thesis
    by (simp add: removeSpot_absent delete_conv')
next
  case (Some sp)
  then show ?thesis
    by (simp add: removeSpot_present delete_conv' Let_def log_error_def)
qed


theorem removeSpot_deletes_entry_witness:
  "map_of (spotIds (removeSpot (env0\<lparr>reply := radio_refusing\<rparr>) key20 world3)) key20 = None \<and>
   sent (removeSpot (env0\<lparr>reply := radio_refusing\<rparr>) key20 world3) = [SpotRemove 3] \<and>
   errlog (removeSpot (env0\<lparr>reply := radio_refusing\<rparr>) key20 world3) = [LogRpcError 0x50000001 ''refused''] \<and>
   map_of (spotIds (removeSpot (env0\<lparr>reply := radio_forgetful\<rparr>) key20 world3)) key20 = None \<and>
   sent (removeSpot (env0\<lparr>reply := radio_forgetful\<rparr>) key20 world3) = [SpotRemove 3] \<and>
   errlog (removeSpot (env0\<lparr>reply := radio_forgetful\<rparr>) key20 world3) = [] \<and>
   sent (removeSpot env0 key40 world3) = [] \<and>
   map_of (spotIds (removeSpot env0 key40 world3)) key20 = Some \<lparr>spot_id = 3, expires = 2000\<rparr>"
  using removeSpot_deletes_entry[of "env0\<lparr>reply := radio_refusing\<rparr>" key20 world3]
    removeSpot_deletes_entry[of "env0\<lparr>reply := radio_forgetful\<rparr>" key20 world3]
    removeSpot_deletes_entry[of env0 key40 world3]
  by (simp add: example_defs)


section \<open>An add answered without a number creates no entry\<close>

text \<open>
  Claim C9. When the key has no entry and the radio answers the \<open>spot add\<close> with
  code 0 and a message that \<open>strconv.Atoi\<close> refuses, \<open>addSpot\<close> leaves the registry as it was,
  having sent that one command; the next event for the key, after the sweep of the loop, sends
  a \<open>spot add\<close> again and no \<open>spot set\<close>.
\<close>

theorem unparsed_add_reply_creates_no_entry:
  assumes absent: "map_of (spotIds w) key = None"
    and ok: "Error (reply e (sent w) (SpotAdd (mkFields c spotCall f dxCall cmt))) = 0"
    and nan: "Atoi (Message (reply e (sent w) (SpotAdd (mkFields c spotCall f dxCall cmt)))) = None"
  shows "spotIds (addSpot e c now key spotCall f dxCall cmt w) = spotIds w \<and>
         sent (addSpot e c now key spotCall f dxCall cmt w) =
           sent w @ [SpotAdd (mkFields c spotCall f dxCall cmt)] \<and>
         sent (addSpot e c now' key spotCall' f' dxCall' cmt'
                 (cleanupSpots t (addSpot e c now key spotCall f dxCall cmt w))) =
           sent w @ [SpotAdd (mkFields c spotCall f dxCall cmt),
                     SpotAdd (mkFields c spotCall' f' dxCall' cmt')]"
proof -
  let ?w1 = "addSpot e c now key spotCall f dxCall cmt w"
  have w1: "?w1 = log_error LogAtoiError (w\<lparr>sent := sent w @ [SpotAdd (mkFields c spotCall f dxCall cmt)]\<rparr>)"
    using ok nan by (simp add: addSpot_absent[OF absent] Let_def)
  have ids: "spotIds ?w1 = spotIds w" and snt: "sent ?w1 = sent w @ [SpotAdd (mkFields c spotCall f dxCall cmt)]"
    by (simp_all add: w1 log_error_def)
  have "map_of (spotIds (cleanupSpots t ?w1)) key = None"
    using cleanupSpots_map_of_cases[of t ?w1 key] absent by (simp add: ids)
  then have "sent (addSpot e c now' key spotCall' f' dxCall' cmt' (cleanupSpots t ?w1)) =
        sent (cleanupSpots t ?w1) @ [SpotAdd (mkFields c spotCall' f' dxCall' cmt')]"
    by (simp add: addSpot_absent Let_def log_error_def split: option.splits)
  then show ?thesis
    using ids snt by (simp add: cleanupSpots_sent)
qed

theorem unparsed_add_reply_creates_no_entry_witness:
  "map_of (spotIds world0) key20 = None \<and>
   Error (radio_wordy [] (SpotAdd fields20)) = 0 \<and>
   Atoi (Message (radio_wordy [] (SpotAdd fields20))) = None \<and>
   spotIds (addSpot (env0\<lparr>reply := radio_wordy\<rparr>) cfg0 1000 key20 ''K1ABC'' (Finite 14025) ''W1XYZ'' ''CQ CQ DX'' world0) = [] \<and>
   sent (addSpot (env0\<lparr>reply := radio_wordy\<rparr>) cfg0 5000 key20 ''K1ABC'' (Finite 14030) ''W1XYZ'' ''CQ''
           (cleanupSpots 1001
              (addSpot (env0\<lparr>reply := radio_wordy\<rparr>) cfg0 1000 key20 ''K1ABC'' (Finite 14025) ''W1XYZ'' ''CQ CQ DX'' world0))) =
     [SpotAdd fields20, SpotAdd (mkFields cfg0 ''K1ABC'' (Finite 14030) ''W1XYZ'' ''CQ'')]"
  using unparsed_add_reply_creates_no_entry[of world0 key20 "env0\<lparr>reply := radio_wordy\<rparr>" cfg0
      "''K1ABC''" "Finite 14025" "''W1XYZ''" "''CQ CQ DX''" 1000 5000 "''K1ABC''" "Finite 14030" "''W1XYZ''" "''CQ''" 1001]
  by (simp add: env0_def world0_def radio_wordy_def fields20_def Atoi_def is_digit_def)


section \<open>A failed event leaves the registry as it was\<close>





section \<open>A line that is no spot leaves the registry as it was\<close>

text \<open>
  Claim C10. When the spot pattern does not match the line, the turn of the reader
  loop returns with the registry, the commands sent and the log as they were: its only effect
  is one console event, a new prompt or the line echoed.
\<close>

theorem other_line_leaves_registry:
  "FindStringSubmatch spotPattern line = None \<Longrightarrow>
   registry_kept (process_line e c t1 t2 line w) w \<and>
   (\<exists>ev. process_line e c t1 t2 line w = Inr (w\<lparr>console := console w @ [ev]\<rparr>))"
  by (simp add: process_line_other registry_kept_def) blast

theorem other_line_leaves_registry_witness:
  "FindStringSubmatch spotPattern ''login: '' = None \<and>
   registry_kept (process_line env0 cfg0 1000 1001 ''login: '' world3) world3 \<and>
   process_line env0 cfg0 1000 1001 ''login: '' world3 = Inr (world3\<lparr>console := [SetPrompt ''login'']\<rparr>) \<and>
   FindStringSubmatch spotPattern ''Hello K1ABC, this is a DX cluster'' = None \<and>
   registry_kept (process_line env0 cfg0 3000 3001 ''Hello K1ABC, this is a DX cluster'' world3) world3 \<and>
   process_line env0 cfg0 3000 3001 ''Hello K1ABC, this is a DX cluster'' world3 =
     Inr (world3\<lparr>console := [Println ''Hello K1ABC, this is a DX cluster'']\<rparr>)"
  using other_line_leaves_registry[OF find_prompt, of env0 cfg0 1000 1001 world3]
    other_line_leaves_registry[OF find_plain, of env0 cfg0 3000 3001 world3]
  by (simp add: find_prompt find_plain process_line_other promptSuffixes_def HasSuffix_def TrimSuffix_def
      world3_def world0_def)

section \<open>QRT as a whole word\<close>

lemma to_upper_word: "to_upper a = x \<Longrightarrow> is_word x \<Longrightarrow> is_word a"
  by (auto simp: to_upper_def is_word_def split: if_splits)

lemma is_word_QT: "is_word CHR ''Q''" "is_word CHR ''T''"
  by (simp_all add: is_word_def is_upper_def)

lemma upper_QRT_shape:
  "map to_upper w = ''QRT'' \<Longrightarrow> \<exists>a b d. w = [a, b, d] \<and> is_word a \<and> is_word d"
proof -
  assume h: "map to_upper w = ''QRT''"
  then obtain a b d where w: "w = [a, b, d]"
    by (auto simp: map_eq_Cons_conv)
  with h have "to_upper a = CHR ''Q''" "to_upper d = CHR ''T''" by simp_all
  then have "is_word a" "is_word d"
    using is_word_QT by (auto intro: to_upper_word)
  with w show ?thesis by blast
qed

lemma upper_QRT: "to_upper CHR ''Q'' = CHR ''Q''" "to_upper CHR ''R'' = CHR ''R''"
    "to_upper CHR ''T'' = CHR ''T''"
  by (simp_all add: to_upper_def is_lower_def)

lemma match_qrt_at:
  "(match_at qrt_items prev s \<noteq> None) =
     (\<not> word_before prev \<and> map to_upper (take 3 s) = ''QRT'' \<and> \<not> word_after (drop 3 s))"
proof (cases "map to_upper (take 3 s) = ''QRT''")
  case True
  then obtain a b d where t: "take 3 s = [a, b, d]" "is_word a" "is_word d"
    using upper_QRT_shape[OF True] by blast
  then obtain rest where s: "s = a # b # d # rest"
    by (metis append_Cons append_Nil append_take_drop_id)
  show ?thesis
    using True t(2,3) unfolding s
    by (simp add: qrt_items_def upper_QRT word_after_def last_of_def word_before_def)
next
  case False
  then show ?thesis
    by (simp add: qrt_items_def upper_QRT numeral_3_eq_3)
qed



lemma find_from_qrt_step:
  "(find_from qrtPattern prev (c # cs) \<noteq> None) =
      (match_at qrt_items prev (c # cs) \<noteq> None \<or> find_from qrtPattern (Some c) cs \<noteq> None)"
proof -
  have items: "items qrtPattern = qrt_items" "anchored qrtPattern = False"
    by (simp_all add: qrtPattern_def)
  show ?thesis
    by (subst find_from.simps) (simp add: items split: option.splits)
qed

lemma find_from_qrt_Nil: "find_from qrtPattern prev [] = None"
proof -
  have "\<not> (match_at qrt_items prev [] \<noteq> None)"
    unfolding match_qrt_at by simp
  then have "match_at qrt_items prev [] = None" by blast
  then show ?thesis
    by (subst find_from.simps) (simp add: qrtPattern_def)
qed

lemma qrt_length: "map to_upper w = ''QRT'' \<Longrightarrow> length w = 3"
proof -
  assume "map to_upper w = ''QRT''"
  then have "length (map to_upper w) = length ''QRT''" by (rule arg_cong)
  then show ?thesis by simp
qed

lemma match_qrt_here:
  "(match_at qrt_items prev s \<noteq> None) =
     (\<exists>w post. s = w @ post \<and> map to_upper w = ''QRT'' \<and> \<not> word_before prev \<and> \<not> word_after post)"
proof
  assume "match_at qrt_items prev s \<noteq> None"
  then have m: "\<not> word_before prev" "map to_upper (take 3 s) = ''QRT''" "\<not> word_after (drop 3 s)"
    using match_qrt_at[of prev s] by blast+
  have "s = take 3 s @ drop 3 s" by simp
  with m have "s = take 3 s @ drop 3 s \<and> map to_upper (take 3 s) = ''QRT'' \<and>
      \<not> word_before prev \<and> \<not> word_after (drop 3 s)" by simp
  then show "\<exists>w post. s = w @ post \<and> map to_upper w = ''QRT'' \<and> \<not> word_before prev \<and> \<not> word_after post"
    by - (rule exI[of _ "take 3 s"], rule exI[of _ "drop 3 s"], assumption)
next
  assume "\<exists>w post. s = w @ post \<and> map to_upper w = ''QRT'' \<and> \<not> word_before prev \<and> \<not> word_after post"
  then obtain w post where h: "s = w @ post" "map to_upper w = ''QRT''"
      "\<not> word_before prev" "\<not> word_after post" by (elim exE conjE)
  from h(2) have "length w = 3" by (rule qrt_length)
  with h(1) have "take 3 s = w" "drop 3 s = post" by simp_all
  with h have "\<not> word_before prev \<and> map to_upper (take 3 s) = ''QRT'' \<and> \<not> word_after (drop 3 s)"
    by simp
  with match_qrt_at[of prev s] show "match_at qrt_items prev s \<noteq> None"
    by (rule iffD2)
qed


lemma find_from_qrt:
  "(find_from qrtPattern prev s \<noteq> None) =
     (\<exists>pre w post. s = pre @ w @ post \<and> map to_upper w = ''QRT'' \<and>
        \<not> word_before (last_of prev pre) \<and> \<not> word_after post)"
proof (induction s arbitrary: prev)
  case Nil
  have "\<not> (\<exists>pre w post. [] = pre @ w @ post \<and> map to_upper w = ''QRT'' \<and>
        \<not> word_before (last_of prev pre) \<and> \<not> word_after post)"
    by auto
  then show ?case by (simp add: find_from_qrt_Nil)
next
  case (Cons c cs)
  show ?case
  proof
    assume "find_from qrtPattern prev (c # cs) \<noteq> None"
    then consider (here) "match_at qrt_items prev (c # cs) \<noteq> None"
      | (later) "find_from qrtPattern (Some c) cs \<noteq> None"
      unfolding find_from_qrt_step by blast
    then show "\<exists>pre w post. c # cs = pre @ w @ post \<and> map to_upper w = ''QRT'' \<and>
        \<not> word_before (last_of prev pre) \<and> \<not> word_after post"
    proof cases
      case here
      then obtain w post where h: "c # cs = w @ post" "map to_upper w = ''QRT''"
          "\<not> word_before prev" "\<not> word_after post"
        unfolding match_qrt_here by (elim exE conjE)
      from h have "c # cs = [] @ w @ post \<and> map to_upper w = ''QRT'' \<and>
          \<not> word_before (last_of prev []) \<and> \<not> word_after post"
        by (simp add: last_of_def)
      then show ?thesis
        by - (rule exI[of _ "[]"], rule exI[of _ w], rule exI[of _ post], assumption)
    next
      case later
      then obtain pre w post where h: "cs = pre @ w @ post" "map to_upper w = ''QRT''"
          "\<not> word_before (last_of (Some c) pre)" "\<not> word_after post"
        unfolding Cons.IH by (elim exE conjE)
      from h have "c # cs = (c # pre) @ w @ post \<and> map to_upper w = ''QRT'' \<and>
          \<not> word_before (last_of prev (c # pre)) \<and> \<not> word_after post"
        by (cases "pre = []") (simp_all add: last_of_def)
      then show ?thesis
        by - (rule exI[of _ "c # pre"], rule exI[of _ w], rule exI[of _ post], assumption)
    qed
  next
    assume "\<exists>pre w post. c # cs = pre @ w @ post \<and> map to_upper w = ''QRT'' \<and>
        \<not> word_before (last_of prev pre) \<and> \<not> word_after post"
    then obtain pre w post where h: "c # cs = pre @ w @ post" "map to_upper w = ''QRT''"
        "\<not> word_before (last_of prev pre)" "\<not> word_after post"
      by (elim exE conjE)
    show "find_from qrtPattern prev (c # cs) \<noteq> None"
    proof (cases pre)
      case Nil
      with h have "c # cs = w @ post \<and> map to_upper w = ''QRT'' \<and>
          \<not> word_before prev \<and> \<not> word_after post"
        by (simp add: last_of_def)
      then have "\<exists>w post. c # cs = w @ post \<and> map to_upper w = ''QRT'' \<and>
          \<not> word_before prev \<and> \<not> word_after post"
        by - (rule exI[of _ w], rule exI[of _ post], assumption)
      with match_qrt_here[of prev "c # cs"] have "match_at qrt_items prev (c # cs) \<noteq> None"
        by (rule iffD2)
      then show ?thesis unfolding find_from_qrt_step by (rule disjI1)
    next
      case (Cons p pre')
      with h(1) have pc: "p = c" and cs: "cs = pre' @ w @ post" by simp_all
      have "\<not> word_before (last_of (Some c) pre')"
        using h(3) unfolding Cons pc by (cases "pre' = []") (simp_all add: last_of_def)
      with cs h(2,4) have "cs = pre' @ w @ post \<and> map to_upper w = ''QRT'' \<and>
          \<not> word_before (last_of (Some c) pre') \<and> \<not> word_after post"
        by simp
      then have "\<exists>pre w post. cs = pre @ w @ post \<and> map to_upper w = ''QRT'' \<and>
          \<not> word_before (last_of (Some c) pre) \<and> \<not> word_after post"
        by - (rule exI[of _ pre'], rule exI[of _ w], rule exI[of _ post], assumption)
      with Cons.IH[of "Some c"] have "find_from qrtPattern (Some c) cs \<noteq> None"
        by (rule iffD2)
      then show ?thesis unfolding find_from_qrt_step by (rule disjI2)
    qed
  qed
qed

lemma qrt_examples:
  "MatchString qrtPattern ''QRT''" "MatchString qrtPattern ''qrt''" "MatchString qrtPattern ''Qrt''"
  "\<not> MatchString qrtPattern ''QRTY''" "\<not> MatchString qrtPattern ''SQRT''"
  "MatchString qrtPattern ''GOING QRT NOW''" "\<not> MatchString qrtPattern ''SQRT 2''"
  by code_simp+

text \<open>
  Claim C6. With the QRT toggle set, the comment of a spot line makes the event a removal
  request exactly when it contains QRT as a whole word in any mix of cases: somewhere in the
  comment three characters read \<open>QRT\<close> once put in upper case, and neither the character
  before them nor the character after them, where there is one, is a word character
  (\<open>[0-9A-Za-z_]\<close>). The comments \<open>QRT\<close>, \<open>qrt\<close> and \<open>Qrt\<close> ask for removal; \<open>QRTY\<close> and
  \<open>SQRT\<close> do not.
\<close>

theorem qrt_whole_word:
  "QRT c \<Longrightarrow>
   (isRemovalRequest c cmt =
      (\<exists>pre w post. cmt = pre @ w @ post \<and> map to_upper w = ''QRT'' \<and>
         (pre = [] \<or> \<not> is_word (last pre)) \<and> (post = [] \<or> \<not> is_word (hd post)))) \<and>
   isRemovalRequest c ''QRT'' \<and> isRemovalRequest c ''qrt'' \<and> isRemovalRequest c ''Qrt'' \<and>
   \<not> isRemovalRequest c ''QRTY'' \<and> \<not> isRemovalRequest c ''SQRT''"
proof -
  assume q: "QRT c"
  have b: "(\<not> word_before (last_of None pre)) = (pre = [] \<or> \<not> is_word (last pre))" for pre
    by (simp add: word_before_def last_of_def)
  have a: "(\<not> word_after post) = (post = [] \<or> \<not> is_word (hd post))" for post
    by (cases post) (simp_all add: word_after_def)
  have "isRemovalRequest c cmt = (find_from qrtPattern None cmt \<noteq> None)"
    using q by (simp add: isRemovalRequest_def MatchString_def FindStringSubmatch_def)
  then have general: "isRemovalRequest c cmt =
      (\<exists>pre w post. cmt = pre @ w @ post \<and> map to_upper w = ''QRT'' \<and>
         (pre = [] \<or> \<not> is_word (last pre)) \<and> (post = [] \<or> \<not> is_word (hd post)))"
    unfolding find_from_qrt a b .
  show ?thesis
    using q general by (simp add: isRemovalRequest_def qrt_examples)
qed

theorem qrt_whole_word_witness:
  "QRT cfg0 \<and>
   isRemovalRequest cfg0 ''GOING QRT NOW'' \<and>
   (\<exists>pre w post. ''GOING QRT NOW'' = pre @ w @ post \<and> map to_upper w = ''QRT'' \<and>
      (pre = [] \<or> \<not> is_word (last pre)) \<and> (post = [] \<or> \<not> is_word (hd post))) \<and>
   \<not> isRemovalRequest cfg0 ''SQRT 2'' \<and>
   \<not> (\<exists>pre w post. ''SQRT 2'' = pre @ w @ post \<and> map to_upper w = ''QRT'' \<and>
      (pre = [] \<or> \<not> is_word (last pre)) \<and> (post = [] \<or> \<not> is_word (hd post)))"
proof -
  have q: "QRT cfg0" by (simp add: cfg0_def)
  have yes: "isRemovalRequest cfg0 ''GOING QRT NOW''"
    and no: "\<not> isRemovalRequest cfg0 ''SQRT 2''"
    using q by (simp_all add: isRemovalRequest_def qrt_examples)
  have e1: "isRemovalRequest cfg0 ''GOING QRT NOW'' =
      (\<exists>pre w post. ''GOING QRT NOW'' = pre @ w @ post \<and> map to_upper w = ''QRT'' \<and>
         (pre = [] \<or> \<not> is_word (last pre)) \<and> (post = [] \<or> \<not> is_word (hd post)))"
    using qrt_whole_word[OF q, of "''GOING QRT NOW''"] by (rule conjunct1)
  have e2: "isRemovalRequest cfg0 ''SQRT 2'' =
      (\<exists>pre w post. ''SQRT 2'' = pre @ w @ post \<and> map to_upper w = ''QRT'' \<and>
         (pre = [] \<or> \<not> is_word (last pre)) \<and> (post = [] \<or> \<not> is_word (hd post)))"
    using qrt_whole_word[OF q, of "''SQRT 2''"] by (rule conjunct1)
  show ?thesis
    using q yes no e1 e2 by (intro conjI) (simp_all only: simp_thms)
qed

section \<open>The add after a not-found update\<close>

text \<open>
  Claim C2. The code at a concrete input: the registry tracks the key under the id 3,
  the radio answers the \<open>spot set 3\<close> with the not-found code and the \<open>spot add\<close> that follows
  with code 0 and the new id 7. The add is issued at once, as the claim says, but the entry
  written afterwards still holds the id 3: \<open>addSpot\<close> reads the id of the answer only when the
  key had no entry.
\<close>

theorem fallback_add_keeps_stale_id:
  "map_of (spotIds world3) key20 = Some \<lparr>spot_id = 3, expires = 2000\<rparr> \<and>
   radio_forgetful [] (SpotSet 3 fields20) = \<lparr>Error = SpotNotFoundError, Message = []\<rparr> \<and>
   radio_forgetful [SpotSet 3 fields20] (SpotAdd fields20) = \<lparr>Error = 0, Message = ''7''\<rparr> \<and>
   sent (addSpot (env0\<lparr>reply := radio_forgetful\<rparr>) cfg0 1000 key20 ''K1ABC'' (Finite 14025) ''W1XYZ''
           ''CQ CQ DX'' world3) = [SpotSet 3 fields20, SpotAdd fields20] \<and>
   map_of (spotIds (addSpot (env0\<lparr>reply := radio_forgetful\<rparr>) cfg0 1000 key20 ''K1ABC'' (Finite 14025)
                      ''W1XYZ'' ''CQ CQ DX'' world3)) key20
     = Some \<lparr>spot_id = 3, expires = 1000 + Timeout cfg0\<rparr>"
proof -
  have sp3: "map_of (spotIds world3) key20 = Some \<lparr>spot_id = 3, expires = 2000\<rparr>"
    by (simp add: world3_def world0_def)
  have s3: "sent world3 = []" "spotIds world3 = [(key20, \<lparr>spot_id = 3, expires = 2000\<rparr>)]"
    by (simp_all add: world3_def world0_def)
  have r1: "radio_forgetful h (SpotSet 3 fields20) = \<lparr>Error = SpotNotFoundError, Message = []\<rparr>" for h
    by (simp add: radio_forgetful_def)
  have r2: "radio_forgetful [SpotSet 3 fields20] (SpotAdd fields20) = \<lparr>Error = 0, Message = ''7''\<rparr>"
    by (simp add: radio_forgetful_def radio_ok_def is_add_def show_nat.simps)
  have f: "mkFields cfg0 ''K1ABC'' (Finite 14025) ''W1XYZ'' ''CQ CQ DX'' = fields20"
    by (simp add: fields20_def)
  show ?thesis
    by (simp add: addSpot_present[OF sp3] Let_def f r1 r2 s3 update_conv')
qed


text \<open>Hence the id 7 that the add returned is not the one the registry holds.\<close>

theorem fallback_add_keeps_stale_id_witness:
  "map_of (spotIds (addSpot (env0\<lparr>reply := radio_forgetful\<rparr>) cfg0 1000 key20 ''K1ABC'' (Finite 14025)
                      ''W1XYZ'' ''CQ CQ DX'' world3)) key20
     \<noteq> Some \<lparr>spot_id = 7, expires = 1000 + Timeout cfg0\<rparr>"
  using fallback_add_keeps_stale_id by simp

section \<open>Spaces in the fields of a command\<close>

text \<open>
  Claim C7. The code at a concrete input, the spot line of the specification's
  scenario: the comment \<open>CQ CQ DX\<close> reaches the \<open>spot add\<close> command with its two spaces. The
  results of the four \<open>strings.ReplaceAll\<close> calls, which would hold the placeholder, are dropped.
\<close>

theorem spaces_reach_the_radio:
  "FindStringSubmatch spotPattern line20 = Some m20 \<and>
   process_line env0 cfg0 1000 1001 line20 world0 =
     Inr \<lparr>spotIds = [(key20, \<lparr>spot_id = 7, expires = 1000 + Timeout cfg0\<rparr>)],
          sent = [SpotAdd fields20],
          errlog = [],
          console = [SpotEcho (take 9 (tl m20)) False ''20m'']\<rparr> \<and>
   comment fields20 = ''CQ CQ DX'' \<and>
   CHR '' '' \<in> set (comment fields20) \<and>
   ReplaceAll ''CQ CQ DX'' CHR '' '' [CHR 0x7F] = ''CQ'' @ [CHR 0x7F] @ ''CQ'' @ [CHR 0x7F] @ ''DX''"
proof -
  have len: "8 \<le> length m20" "\<not> length m20 < 8" "\<not> length m20 < 4" "\<not> length m20 < 10"
    by (simp_all add: m20_def)
  have nth: "m20 ! 1 = ''K1ABC''" "m20 ! Suc 0 = ''K1ABC''" "m20 ! 3 = ''14025.0''" "m20 ! 5 = ''W1XYZ''" "m20 ! 7 = ''CQ CQ DX''"
    by (simp_all add: m20_def)
  have pf: "ParseFloat env0 ''14025.0'' = Some (Finite 14025)"
    by (simp add: env0_def parse_14025)
  have key: "eventKey env0 cfg0 (Finite 14025) ''W1XYZ'' = key20"
    by (simp add: eventKey_def cfg0_def key20_def getBand_14025)
  have rem: "isRemovalRequest cfg0 ''CQ CQ DX'' = False"
    by (simp add: isRemovalRequest_def no_qrt_in_comment20)
  have echo: "logToConsole env0 m20 False world0 =
      Inr (world0\<lparr>console := [SpotEcho (take 9 (tl m20)) False ''20m'']\<rparr>)"
    by (simp add: logToConsole_def len nth pf getBand_14025 world0_def)
  let ?w1 = "world0\<lparr>console := [SpotEcho (take 9 (tl m20)) False ''20m'']\<rparr>"
  have absent: "map_of (spotIds ?w1) key20 = None"
    by (simp add: world0_def)
  have rep: "reply env0 = radio_ok"
    by (simp add: env0_def)
  have add: "addSpot env0 cfg0 1000 key20 ''K1ABC'' (Finite 14025) ''W1XYZ'' ''CQ CQ DX'' ?w1 =
      \<lparr>spotIds = [(key20, \<lparr>spot_id = 7, expires = 1000 + Timeout cfg0\<rparr>)],
       sent = [SpotAdd fields20], errlog = [],
       console = [SpotEcho (take 9 (tl m20)) False ''20m'']\<rparr>"
    by (simp add: addSpot_absent[OF absent] Let_def rep world0_sel radio_ok_first_add Atoi_7 fields20_def)
  have send: "sendToFlex env0 cfg0 1000 m20 False ?w1 =
      Inr \<lparr>spotIds = [(key20, \<lparr>spot_id = 7, expires = 1000 + Timeout cfg0\<rparr>)],
           sent = [SpotAdd fields20], errlog = [],
           console = [SpotEcho (take 9 (tl m20)) False ''20m'']\<rparr>"
    using sendToFlex_add[OF len(1), of env0 "Finite 14025" cfg0 1000 ?w1]
    by (simp add: nth pf key add)
  have sweep: "cleanupSpots 1001 \<lparr>spotIds = [(key20, \<lparr>spot_id = 7, expires = 1000 + Timeout cfg0\<rparr>)],
           sent = [SpotAdd fields20], errlog = [],
           console = [SpotEcho (take 9 (tl m20)) False ''20m'']\<rparr> =
        \<lparr>spotIds = [(key20, \<lparr>spot_id = 7, expires = 1000 + Timeout cfg0\<rparr>)],
           sent = [SpotAdd fields20], errlog = [],
           console = [SpotEcho (take 9 (tl m20)) False ''20m'']\<rparr>"
    by (simp add: cleanupSpots_def sweep_step_def cfg0_def Second_def)
  have run: "process_line env0 cfg0 1000 1001 line20 world0 =
     Inr \<lparr>spotIds = [(key20, \<lparr>spot_id = 7, expires = 1000 + Timeout cfg0\<rparr>)],
          sent = [SpotAdd fields20], errlog = [],
          console = [SpotEcho (take 9 (tl m20)) False ''20m'']\<rparr>"
    by (simp add: process_line_def find_line20 len nth rem echo send sweep)
  have cmt: "comment fields20 = ''CQ CQ DX''"
    by (simp add: fields20_def mkFields_def)
  show ?thesis
    by (simp add: find_line20 run cmt ReplaceAll_def)
qed

text \<open>Hence the command sent is not the one with the placeholder in the comment.\<close>

theorem spaces_reach_the_radio_witness:
  "\<exists>w. process_line env0 cfg0 1000 1001 line20 world0 = Inr w \<and>
       sent w \<noteq> [SpotAdd (fields20\<lparr>comment := ReplaceAll ''CQ CQ DX'' CHR '' '' [CHR 0x7F]\<rparr>)]"
  using spaces_reach_the_radio by (simp add: fields20_def mkFields_def)

section \<open>One add, then updates\<close>

text \<open>
  A turn of the reader loop on a spot line that asks for no removal and whose frequency
  parses is \<open>upsert_sweep\<close> on the event the line carries, after the echo on the console.
\<close>

lemma process_line_upsert:
  assumes m: "FindStringSubmatch spotPattern line = Some m"
    and pf: "ParseFloat e (m ! 3) = Some f"
    and keep: "\<not> isRemovalRequest c (m ! 7)"
  shows "process_line e c t1 t2 line w =
     Inr (upsert_sweep e c
            \<lparr>spotter = m ! 1, freqKhz = f, dx = m ! 5, remark = m ! 7, t_add = t1, t_sweep = t2\<rparr>
            (w\<lparr>console := console w @ [SpotEcho (take 9 (tl m)) False (getBand f)]\<rparr>))"
proof -
  have len: "length m = 10" using m by (rule spotPattern_ten)
  then have l8: "8 \<le> length m" by simp
  have echo: "logToConsole e m False w =
      Inr (w\<lparr>console := console w @ [SpotEcho (take 9 (tl m)) False (getBand f)]\<rparr>)"
    by (simp add: logToConsole_def len pf)
  show ?thesis
    using keep
    by (simp add: process_line_def m len echo sendToFlex_add[OF l8 pf] upsert_sweep_def evKey_def)
qed











end
